theory Spec2Isabelle
  imports Complex_Main "HOL-Library.Word"
begin

section \<open>Waveform acquisition scripts: decoding, scaling and the capture loops\<close>

text \<open>
  The repository holds three scripts that drive an oscilloscope:
  \<^verbatim>\<open>acquire.py\<close> (Tektronix, python-usbtmc, a plain \<^verbatim>\<open>for\<close> loop),
  \<^verbatim>\<open>acquire_pyvisa.py\<close> (Tektronix, PyVISA, the same loop with header stripping) and
  \<^verbatim>\<open>acquire_ag.py\<close> (Agilent, python-usbtmc, a loop driven by a Qt timer).
  The instrument, the plot and the file system are outside the scripts; they are
  modelled as an environment that answers every call with a value or an exception.
\<close>

subsection \<open>Bytes and Python slices\<close>

type_synonym byte = "8 word"
type_synonym bytes = "byte list"

text \<open>\<^verbatim>\<open>np.frombuffer(b, dtype=np.int8)\<close>: every byte read as a signed 8-bit code.\<close>

definition frombuffer :: "bytes \<Rightarrow> int list" where
  "frombuffer waveform_bytes = map sint waveform_bytes"

text \<open>
  Python slices never raise. \<^verbatim>\<open>xs[lo:]\<close> with \<open>lo \<ge> 0\<close>, \<^verbatim>\<open>xs[lo:-1]\<close> with
  \<open>lo \<ge> 0\<close> and \<^verbatim>\<open>xs[:hi]\<close> for any integer \<open>hi\<close> (a negative \<open>hi\<close> counts from the end).
\<close>

definition slice_from :: "nat \<Rightarrow> 'a list \<Rightarrow> 'a list" where
  "slice_from lo xs = drop lo xs"

definition slice_from_to_last :: "nat \<Rightarrow> 'a list \<Rightarrow> 'a list" where
  "slice_from_to_last lo xs = drop lo (take (length xs - 1) xs)"

definition slice_to :: "int \<Rightarrow> 'a list \<Rightarrow> 'a list" where
  "slice_to hi xs =
     (if 0 \<le> hi then take (nat hi) xs else take (nat (int (length xs) + hi)) xs)"

subsection \<open>Tektronix header stripping (acquire\_pyvisa.py)\<close>

text \<open>
  \<^verbatim>\<open>
  if waveform_bytes[0:1] == b'#':
      len_digits = int(chr(waveform_bytes[1]))
      header_len = 2 + len_digits
      waveform_bytes = waveform_bytes[header_len:-1]
  \<close>
  \<^verbatim>\<open>waveform_bytes[1]\<close> raises IndexError on a buffer of one byte, and
  \<^verbatim>\<open>int(chr(b))\<close> raises ValueError unless \<open>b\<close> is one of the ASCII digits
  \<open>0x30 .. 0x39\<close>.
\<close>

datatype decode_error = IndexError | ValueError

definition int_chr :: "byte \<Rightarrow> decode_error + nat" where
  "int_chr b = (if 0x30 \<le> b \<and> b \<le> 0x39 then Inr (unat b - 48) else Inl ValueError)"

definition header_len :: "bytes \<Rightarrow> decode_error + nat" where
  "header_len waveform_bytes =
     (if length waveform_bytes \<le> 1 then Inl IndexError
      else case int_chr (waveform_bytes ! 1) of
             Inl e \<Rightarrow> Inl e
           | Inr len_digits \<Rightarrow> Inr (2 + len_digits))"

definition strip_tek_header :: "bytes \<Rightarrow> decode_error + bytes" where
  "strip_tek_header waveform_bytes =
     (if take 1 waveform_bytes = [0x23] then
        (case header_len waveform_bytes of
           Inl e \<Rightarrow> Inl e
         | Inr h \<Rightarrow> Inr (slice_from_to_last h waveform_bytes))
      else Inr waveform_bytes)"

text \<open>
  \<^verbatim>\<open>
  if len(raw_waveform) != num_points:
      raw_waveform = raw_waveform[:num_points]
  \<close>
\<close>

definition reconcile :: "int \<Rightarrow> 'a list \<Rightarrow> 'a list" where
  "reconcile num_points raw_waveform =
     (if int (length raw_waveform) \<noteq> num_points then slice_to num_points raw_waveform
      else raw_waveform)"




text \<open>
  The decoding steps of one capture of acquire\_pyvisa.py, in the order of the loop body:
  strip the header, read the bytes as int8 codes, reconcile with \<^verbatim>\<open>num_points\<close>.
\<close>

definition decode_visa :: "int \<Rightarrow> bytes \<Rightarrow> decode_error + int list" where
  "decode_visa num_points waveform_bytes =
     (case strip_tek_header waveform_bytes of
        Inl e \<Rightarrow> Inl e
      | Inr stripped \<Rightarrow> Inr (reconcile num_points (frombuffer stripped)))"

subsection \<open>Agilent header stripping (acquire\_ag.py)\<close>

text \<open>
  \<^verbatim>\<open>
  header_end_index = waveform_bytes.find(b'\n') + 1
  raw_waveform = np.frombuffer(waveform_bytes[header_end_index:], dtype=np.int8)
  \<close>
  \<^verbatim>\<open>bytes.find\<close> with a needle of one byte: the index of its first occurrence, or \<open>-1\<close>.
\<close>

fun find_from :: "nat \<Rightarrow> byte \<Rightarrow> bytes \<Rightarrow> int" where
  "find_from k b [] = - 1"
| "find_from k b (x # xs) = (if x = b then int k else find_from (Suc k) b xs)"

definition find_byte :: "byte \<Rightarrow> bytes \<Rightarrow> int" where
  "find_byte b waveform_bytes = find_from 0 b waveform_bytes"

definition header_end_index :: "bytes \<Rightarrow> int" where
  "header_end_index waveform_bytes = find_byte 0x0A waveform_bytes + 1"

definition agilent_payload :: "bytes \<Rightarrow> bytes" where
  "agilent_payload waveform_bytes = slice_from (nat (header_end_index waveform_bytes)) waveform_bytes"

subsection \<open>Scaling\<close>

text \<open>
  \<^verbatim>\<open>
  voltages = (raw_waveform.astype(np.float32) - y_zero + y_offset) * y_multiplier     # Tektronix
  voltages = (raw_waveform.astype(np.float32) - y_reference) * y_increment + y_origin # Agilent
  times = np.arange(0, len(raw_waveform)) * x_increment + x_origin
  \<close>
  NumPy computes the voltages in float32 and the times in float64. The number types are
  left open here: \<open>'v\<close> is the type of the voltages, \<open>'t\<close> the type of the times, and
  \<open>+\<close>, \<open>-\<close>, \<open>*\<close> are whatever (rounding) operations those types have. The
  conversions of integers into them are parameters: \<open>astype\<close> takes a code (or a
  Python integer) to \<open>'v\<close>, \<open>arange\<close> takes an index to \<open>'t\<close>.
\<close>

definition scale_tek ::
  "(int \<Rightarrow> 'v) \<Rightarrow> 'v \<Rightarrow> 'v \<Rightarrow> 'v \<Rightarrow> int list \<Rightarrow> ('v::{plus,minus,times}) list" where
  "scale_tek astype y_zero y_offset y_multiplier raw_waveform =
     map (\<lambda>c. (astype c - y_zero + y_offset) * y_multiplier) raw_waveform"

definition scale_agilent ::
  "(int \<Rightarrow> 'v) \<Rightarrow> int \<Rightarrow> 'v \<Rightarrow> 'v \<Rightarrow> int list \<Rightarrow> ('v::{plus,minus,times}) list" where
  "scale_agilent astype y_reference y_increment y_origin raw_waveform =
     map (\<lambda>c. (astype c - astype y_reference) * y_increment + y_origin) raw_waveform"

definition sample_times :: "(nat \<Rightarrow> 't) \<Rightarrow> 't \<Rightarrow> 't \<Rightarrow> nat \<Rightarrow> ('t::{plus,times}) list" where
  "sample_times arange x_increment x_origin n =
     map (\<lambda>k. arange k * x_increment + x_origin) [0..<n]"

section \<open>The capture loops\<close>

subsection \<open>Exceptions and the timeout test\<close>

text \<open>
  The loops catch \<^verbatim>\<open>Exception\<close> and look only at its text:
  \<^verbatim>\<open>
  except Exception as e:
      logging.error(f"An error occurred during capture {i+1}: {e}")
      if "Timeout" in str(e):
  \<close>
  So an exception is modelled by \<^verbatim>\<open>str(e)\<close>, and "is a timeout" is the substring
  test of the source.
\<close>

datatype exn = Exn (str: string)

fun starts_with :: "'a list \<Rightarrow> 'a list \<Rightarrow> bool" where
  "starts_with [] text = True"
| "starts_with (p # pat) [] = False"
| "starts_with (p # pat) (c # text) = (p = c \<and> starts_with pat text)"

fun contains :: "'a list \<Rightarrow> 'a list \<Rightarrow> bool" where
  "contains pat [] = (pat = [])"
| "contains pat (c # text) = (starts_with pat (c # text) \<or> contains pat text)"

definition is_timeout :: "exn \<Rightarrow> bool" where
  "is_timeout e = contains ''Timeout'' (str e)"

subsection \<open>The environment: instrument, sinks and Python builtins\<close>

text \<open>
  Everything outside the scripts is a parameter. The instrument answers a call from the
  calls made so far (\<open>scope.write\<close>, \<open>scope.ask\<close>, \<open>scope.read_raw\<close>), with an
  exception or a value. The plot and \<^verbatim>\<open>np.savetxt\<close> may raise as well. The builtins
  \<^verbatim>\<open>int()\<close> and \<^verbatim>\<open>float()\<close> on a reply, \<^verbatim>\<open>int()\<close> on a float, and NumPy's
  conversions into the float types are parameters too. \<open>scope.close()\<close> is taken not to
  raise; the statements of a loop body that only measure time, format text, set a title or
  log at level info are left out.

  What a run does to the outside is recorded in \<open>world\<close>: the session calls in order, the
  \<^verbatim>\<open>logging.error\<close> lines of the loop (capture number and exception), the plots drawn
  and the files saved (capture number, times, voltages).
\<close>

datatype call = Write string | Ask string | Read_raw | Close

record ('v, 't) env =
  on_write :: "call list \<Rightarrow> string \<Rightarrow> exn option"
  on_ask :: "call list \<Rightarrow> string \<Rightarrow> exn + string"
  on_read_raw :: "call list \<Rightarrow> exn + bytes"
  on_plot :: "nat \<Rightarrow> 't list \<Rightarrow> 'v list \<Rightarrow> exn option"
  on_savetxt :: "nat \<Rightarrow> 't list \<Rightarrow> 'v list \<Rightarrow> exn option"
  py_int :: "string \<Rightarrow> exn + int"
  py_float :: "string \<Rightarrow> exn + 't"
  int_of_float :: "'t \<Rightarrow> exn + int"
  float32 :: "'t \<Rightarrow> 'v"
  astype :: "int \<Rightarrow> 'v"
  arange :: "nat \<Rightarrow> 't"

record ('v, 't) world =
  calls :: "call list"
  errors :: "(nat \<times> exn) list"
  plotted :: "(nat \<times> 't list \<times> 'v list) list"
  saved :: "(nat \<times> 't list \<times> 'v list) list"

subsection \<open>The scripts' global variables\<close>

text \<open>
  The scaling parameters are module-level variables, assigned once by the set-up block.
  acquire.py: \<^verbatim>\<open>num_points, x_increment, x_origin, y_multiplier, y_offset, y_zero\<close>;
  acquire\_ag.py: \<^verbatim>\<open>x_increment, x_origin, y_increment, y_origin, y_reference\<close>, the
  counter \<^verbatim>\<open>i\<close> (here \<open>iter\<close>) and the Qt timer, of which only "running or stopped"
  matters.
\<close>

record ('v, 't) scope_state = "('v, 't) world" +
  x_increment :: 't
  x_origin :: 't

record ('v, 't) tek_state = "('v, 't) scope_state" +
  num_points :: int
  y_multiplier :: 't
  y_offset :: 't
  y_zero :: 't

record ('v, 't) ag_state = "('v, 't) scope_state" +
  y_increment :: 't
  y_origin :: 't
  y_reference :: int
  iter :: nat
  timer_active :: bool

subsection \<open>Statements in sequence inside a try block\<close>

text \<open>
  A step returns a value or an exception, and the new state. \<open>seq m f\<close> runs \<open>m\<close>, then
  \<open>f\<close> on its value; an exception of \<open>m\<close> skips \<open>f\<close>, as inside \<^verbatim>\<open>try\<close>.
\<close>

definition seq :: "('s \<Rightarrow> (exn + 'x) \<times> 's) \<Rightarrow> ('x \<Rightarrow> 's \<Rightarrow> (exn + 'y) \<times> 's) \<Rightarrow> 's \<Rightarrow> (exn + 'y) \<times> 's" where
  "seq m f s = (case m s of (Inl e, s') \<Rightarrow> (Inl e, s') | (Inr x, s') \<Rightarrow> f x s')"

definition pure :: "exn + 'x \<Rightarrow> 's \<Rightarrow> (exn + 'x) \<times> 's" where
  "pure r s = (r, s)"

subsection \<open>Session calls and sinks\<close>

text \<open>
  Every session call is appended to the trace, whether it raises or not. A plot or a file
  is recorded only when the sink did not raise.
\<close>

definition scope_write ::
  "('v, 't) env \<Rightarrow> string \<Rightarrow> ('v, 't, 'z) world_scheme \<Rightarrow> (exn + unit) \<times> ('v, 't, 'z) world_scheme" where
  "scope_write E cmd w =
     ((case on_write E (calls w) cmd of Some e \<Rightarrow> Inl e | None \<Rightarrow> Inr ()),
      w\<lparr>calls := calls w @ [Write cmd]\<rparr>)"

definition scope_ask ::
  "('v, 't) env \<Rightarrow> string \<Rightarrow> ('v, 't, 'z) world_scheme \<Rightarrow> (exn + string) \<times> ('v, 't, 'z) world_scheme" where
  "scope_ask E cmd w = (on_ask E (calls w) cmd, w\<lparr>calls := calls w @ [Ask cmd]\<rparr>)"

definition scope_read_raw ::
  "('v, 't) env \<Rightarrow> ('v, 't, 'z) world_scheme \<Rightarrow> (exn + bytes) \<times> ('v, 't, 'z) world_scheme" where
  "scope_read_raw E w = (on_read_raw E (calls w), w\<lparr>calls := calls w @ [Read_raw]\<rparr>)"

definition scope_close :: "('v, 't, 'z) world_scheme \<Rightarrow> ('v, 't, 'z) world_scheme" where
  "scope_close w = w\<lparr>calls := calls w @ [Close]\<rparr>"

definition plot ::
  "('v, 't) env \<Rightarrow> nat \<Rightarrow> 't list \<Rightarrow> 'v list \<Rightarrow> ('v, 't, 'z) world_scheme
   \<Rightarrow> (exn + unit) \<times> ('v, 't, 'z) world_scheme" where
  "plot E k time_axis voltages w =
     (case on_plot E k time_axis voltages of
        Some e \<Rightarrow> (Inl e, w)
      | None \<Rightarrow> (Inr (), w\<lparr>plotted := plotted w @ [(k, time_axis, voltages)]\<rparr>))"

definition savetxt ::
  "('v, 't) env \<Rightarrow> nat \<Rightarrow> 't list \<Rightarrow> 'v list \<Rightarrow> ('v, 't, 'z) world_scheme
   \<Rightarrow> (exn + unit) \<times> ('v, 't, 'z) world_scheme" where
  "savetxt E k time_axis voltages w =
     (case on_savetxt E k time_axis voltages of
        Some e \<Rightarrow> (Inl e, w)
      | None \<Rightarrow> (Inr (), w\<lparr>saved := saved w @ [(k, time_axis, voltages)]\<rparr>))"

definition log_error :: "nat \<Rightarrow> exn \<Rightarrow> ('v, 't, 'z) world_scheme \<Rightarrow> ('v, 't, 'z) world_scheme" where
  "log_error k e w = w\<lparr>errors := errors w @ [(k, e)]\<rparr>"

subsection \<open>acquire.py: the set-up block\<close>

text \<open>
  \<^verbatim>\<open>
  try:
      instrument_id = scope.ask('*IDN?')
      scope.write(f'DATA:SOURCE {WAVEFORM_SOURCE}')
      scope.write('DATA:ENCDG RIBinary')
      scope.write('DATA:WIDTH 1')
      scope.write('HEADER OFF')
      scope.write('ACQUIRE:STOPAFTER SEQUENCE')
      num_points = int(scope.ask('WFMPRE:NR_PT?'))
      x_increment = float(scope.ask('WFMPRE:XINCR?'))
      x_origin = float(scope.ask('WFMPRE:XZERO?'))
      y_multiplier = float(scope.ask('WFMPRE:YMULT?'))
      y_offset = float(scope.ask('WFMPRE:YOFF?'))
      y_zero = float(scope.ask('WFMPRE:YZERO?'))
  except Exception as e:
      logging.error(f"Error during configuration: {e}")
      scope.close()
      exit()
  \<close>
  with \<^verbatim>\<open>WAVEFORM_SOURCE = 'CH2'\<close>.
\<close>

definition initial :: "('v, 't) world" where
  "initial = \<lparr>calls = [], errors = [], plotted = [], saved = []\<rparr>"

definition ask_int ::
  "('v, 't) env \<Rightarrow> string \<Rightarrow> ('v, 't, 'z) world_scheme \<Rightarrow> (exn + int) \<times> ('v, 't, 'z) world_scheme" where
  "ask_int E cmd = seq (scope_ask E cmd) (\<lambda>reply. pure (py_int E reply))"

definition ask_float ::
  "('v, 't) env \<Rightarrow> string \<Rightarrow> ('v, 't, 'z) world_scheme \<Rightarrow> (exn + 't) \<times> ('v, 't, 'z) world_scheme" where
  "ask_float E cmd = seq (scope_ask E cmd) (\<lambda>reply. pure (py_float E reply))"

definition configure ::
  "('v, 't) env \<Rightarrow> ('v, 't) world
   \<Rightarrow> (exn + int \<times> 't \<times> 't \<times> 't \<times> 't \<times> 't) \<times> ('v, 't) world" where
  "configure E =
     seq (scope_ask E ''*IDN?'') (\<lambda>instrument_id.
     seq (scope_write E ''DATA:SOURCE CH2'') (\<lambda>_.
     seq (scope_write E ''DATA:ENCDG RIBinary'') (\<lambda>_.
     seq (scope_write E ''DATA:WIDTH 1'') (\<lambda>_.
     seq (scope_write E ''HEADER OFF'') (\<lambda>_.
     seq (scope_write E ''ACQUIRE:STOPAFTER SEQUENCE'') (\<lambda>_.
     seq (ask_int E ''WFMPRE:NR_PT?'') (\<lambda>num_points.
     seq (ask_float E ''WFMPRE:XINCR?'') (\<lambda>x_increment.
     seq (ask_float E ''WFMPRE:XZERO?'') (\<lambda>x_origin.
     seq (ask_float E ''WFMPRE:YMULT?'') (\<lambda>y_multiplier.
     seq (ask_float E ''WFMPRE:YOFF?'') (\<lambda>y_offset.
     seq (ask_float E ''WFMPRE:YZERO?'') (\<lambda>y_zero.
     pure (Inr (num_points, x_increment, x_origin, y_multiplier, y_offset, y_zero))))))))))))))"

definition tek_start ::
  "('v, 't) world \<Rightarrow> int \<times> 't \<times> 't \<times> 't \<times> 't \<times> 't \<Rightarrow> ('v, 't) tek_state" where
  "tek_start w pre =
     (case pre of (np, xi, xo, ym, yo, yz) \<Rightarrow>
        \<lparr>calls = calls w, errors = errors w, plotted = plotted w, saved = saved w,
         x_increment = xi, x_origin = xo,
         num_points = np, y_multiplier = ym, y_offset = yo, y_zero = yz\<rparr>)"

subsection \<open>acquire.py: the capture loop\<close>

text \<open>
  \<^verbatim>\<open>
  for i in range(NUM_CAPTURES):
      try:
          scope.write('ACQUIRE:STATE ON')
          scope.ask('*OPC?')
          scope.write('CURVE?')
          waveform_bytes = scope.read_raw()
          raw_waveform = np.frombuffer(waveform_bytes, dtype=np.int8)
          voltages = (raw_waveform.astype(np.float32) - y_zero + y_offset) * y_multiplier
          times = np.arange(0, len(raw_waveform)) * x_increment + x_origin
          line.set_xdata(times); line.set_ydata(voltages); ...; fig.canvas.flush_events()
          np.savetxt(filename, data_to_save, ...)
      except Exception as e:
          logging.error(f"An error occurred during capture {i+1}: {e}")
          if "Timeout" in str(e):
              break
          continue
  logging.info("Acquisition complete.")
  scope.close()
  \<close>
  \<^verbatim>\<open>NUM_CAPTURES\<close> (100 in the source) is the parameter \<open>n\<close>. The loop of
  acquire\_pyvisa.py has the same handler. \<open>acquire\<close> is the script from the set-up block
  on: \<open>Inl\<close> when the set-up failed (the exception and the world at exit), \<open>Inr\<close> the
  final state otherwise.
\<close>

definition capture ::
  "('v::{plus,minus,times}, 't::{plus,times}) env \<Rightarrow> nat \<Rightarrow> ('v, 't) tek_state
   \<Rightarrow> (exn + unit) \<times> ('v, 't) tek_state" where
  "capture E i =
     seq (scope_write E ''ACQUIRE:STATE ON'') (\<lambda>_.
     seq (scope_ask E ''*OPC?'') (\<lambda>_.
     seq (scope_write E ''CURVE?'') (\<lambda>_.
     seq (scope_read_raw E) (\<lambda>waveform_bytes s.
       let raw_waveform = frombuffer waveform_bytes;
           voltages = scale_tek (astype E) (float32 E (y_zero s)) (float32 E (y_offset s))
                        (float32 E (y_multiplier s)) raw_waveform;
           time_axis = sample_times (arange E) (x_increment s) (x_origin s) (length raw_waveform)
       in seq (plot E (i + 1) time_axis voltages) (\<lambda>_. savetxt E (i + 1) time_axis voltages) s))))"

fun capture_loop ::
  "('v::{plus,minus,times}, 't::{plus,times}) env \<Rightarrow> nat list \<Rightarrow> ('v, 't) tek_state
   \<Rightarrow> ('v, 't) tek_state" where
  "capture_loop E [] s = s"
| "capture_loop E (i # rest) s =
     (case capture E i s of
        (Inr _, s') \<Rightarrow> capture_loop E rest s'
      | (Inl e, s') \<Rightarrow>
          if is_timeout e then log_error (i + 1) e s'
          else capture_loop E rest (log_error (i + 1) e s'))"

definition acquire ::
  "('v::{plus,minus,times}, 't::{plus,times}) env \<Rightarrow> nat
   \<Rightarrow> exn \<times> ('v, 't) world + ('v, 't) tek_state" where
  "acquire E n =
     (case configure E initial of
        (Inl e, w) \<Rightarrow> Inl (e, scope_close w)
      | (Inr pre, w) \<Rightarrow> Inr (scope_close (capture_loop E [0..<n] (tek_start w pre))))"

subsection \<open>acquire\_ag.py: the set-up block\<close>

text \<open>
  \<^verbatim>\<open>
  try:
      scope = usbtmc.Instrument(SCOPE_VID, SCOPE_PID)
      logging.info(f"Connected to: {scope.ask('*IDN?').strip()}")
      scope.write(':STOP')
      scope.write(f':WAVEFORM:SOURCE {WAVEFORM_SOURCE}')
      scope.write(':WAVEFORM:FORMAT BYTE')
      scope.write(':WAVEFORM:UNSIGNED OFF')
      scope.write(f':ACQUIRE:POINTS {ACQUISITION_POINTS}')
      scope.write(':ACQUIRE:TYPE NORMAL')
      preamble = scope.ask(':WAVEFORM:PREAMBLE?').split(',')
      x_increment = float(preamble[4])
      x_origin = float(preamble[5])
      y_increment = float(preamble[7])
      y_origin = float(preamble[8])
      y_reference = int(float(preamble[9]))
  except Exception as e:
      logging.error(f"Error during setup: {e}")
      exit()
  \<close>
  with \<^verbatim>\<open>WAVEFORM_SOURCE = 'CHAN4'\<close> and \<^verbatim>\<open>ACQUISITION_POINTS = 1000\<close>. The handler
  exits without closing. \<open>split_on\<close> is \<^verbatim>\<open>str.split(sep)\<close>; \<open>item\<close> is list indexing
  with its IndexError.
\<close>

fun split_on :: "char \<Rightarrow> string \<Rightarrow> string list" where
  "split_on sep [] = [[]]"
| "split_on sep (c # cs) =
     (if c = sep then [] # split_on sep cs
      else (case split_on sep cs of
              part # parts \<Rightarrow> (c # part) # parts
            | [] \<Rightarrow> [[c]]))"

definition item :: "string list \<Rightarrow> nat \<Rightarrow> exn + string" where
  "item xs k = (if k < length xs then Inr (xs ! k) else Inl (Exn ''list index out of range''))"

definition float_item :: "('v, 't) env \<Rightarrow> string list \<Rightarrow> nat \<Rightarrow> exn + 't" where
  "float_item E xs k = (case item xs k of Inl e \<Rightarrow> Inl e | Inr part \<Rightarrow> py_float E part)"

definition int_float_item :: "('v, 't) env \<Rightarrow> string list \<Rightarrow> nat \<Rightarrow> exn + int" where
  "int_float_item E xs k = (case float_item E xs k of Inl e \<Rightarrow> Inl e | Inr f \<Rightarrow> int_of_float E f)"

definition configure_ag ::
  "('v, 't) env \<Rightarrow> ('v, 't) world
   \<Rightarrow> (exn + 't \<times> 't \<times> 't \<times> 't \<times> int) \<times> ('v, 't) world" where
  "configure_ag E =
     seq (scope_ask E ''*IDN?'') (\<lambda>instrument_id.
     seq (scope_write E '':STOP'') (\<lambda>_.
     seq (scope_write E '':WAVEFORM:SOURCE CHAN4'') (\<lambda>_.
     seq (scope_write E '':WAVEFORM:FORMAT BYTE'') (\<lambda>_.
     seq (scope_write E '':WAVEFORM:UNSIGNED OFF'') (\<lambda>_.
     seq (scope_write E '':ACQUIRE:POINTS 1000'') (\<lambda>_.
     seq (scope_write E '':ACQUIRE:TYPE NORMAL'') (\<lambda>_.
     seq (scope_ask E '':WAVEFORM:PREAMBLE?'') (\<lambda>reply.
       let preamble = split_on CHR '','' reply in
       seq (pure (float_item E preamble 4)) (\<lambda>x_increment.
       seq (pure (float_item E preamble 5)) (\<lambda>x_origin.
       seq (pure (float_item E preamble 7)) (\<lambda>y_increment.
       seq (pure (float_item E preamble 8)) (\<lambda>y_origin.
       seq (pure (int_float_item E preamble 9)) (\<lambda>y_reference.
       pure (Inr (x_increment, x_origin, y_increment, y_origin, y_reference)))))))))))))))"

definition ag_start ::
  "('v, 't) world \<Rightarrow> 't \<times> 't \<times> 't \<times> 't \<times> int \<Rightarrow> ('v, 't) ag_state" where
  "ag_start w pre =
     (case pre of (xi, xo, yi, yo, yr) \<Rightarrow>
        \<lparr>calls = calls w, errors = errors w, plotted = plotted w, saved = saved w,
         x_increment = xi, x_origin = xo,
         y_increment = yi, y_origin = yo, y_reference = yr, iter = 0, timer_active = True\<rparr>)"

subsection \<open>acquire\_ag.py: the timer callback\<close>

text \<open>
  \<^verbatim>\<open>
  def update():
      global i, all_rates
      if i >= NUM_CAPTURES:
          timer.stop()
          ...
          scope.write(':RUN')
          scope.close()
          p1.setTitle(...)
          return
      try:
          scope.write(f':DIGITIZE {WAVEFORM_SOURCE}')
          scope.write(':WAVEFORM:DATA?')
          waveform_bytes = scope.read_raw()
          header_end_index = waveform_bytes.find(b'\n') + 1
          raw_waveform = np.frombuffer(waveform_bytes[header_end_index:], dtype=np.int8)
          voltages = (raw_waveform.astype(np.float32) - y_reference) * y_increment + y_origin
          times = np.arange(0, len(raw_waveform)) * x_increment + x_origin
          np.savetxt(filename, data_to_save, ...)
          if (i + 1) % PLOT_EVERY_N_FRAMES == 0:
              curve.setData(times, voltages)
              app.processEvents()
      except Exception as e:
          logging.error(f"An error occurred during capture {i+1}: {e}")
          timer.stop()
          scope.close()
      i += 1
  \<close>
  with \<^verbatim>\<open>PLOT_EVERY_N_FRAMES = 5\<close>; \<^verbatim>\<open>NUM_CAPTURES\<close> (300 in the source) is the
  parameter \<open>n\<close>. The first branch is outside the \<^verbatim>\<open>try\<close>: an exception of
  \<^verbatim>\<open>scope.write(':RUN')\<close> leaves \<open>update\<close>, which is its first component \<open>Some e\<close>.
\<close>

definition capture_ag ::
  "('v::{plus,minus,times}, 't::{plus,times}) env \<Rightarrow> ('v, 't) ag_state
   \<Rightarrow> (exn + unit) \<times> ('v, 't) ag_state" where
  "capture_ag E =
     seq (scope_write E '':DIGITIZE CHAN4'') (\<lambda>_.
     seq (scope_write E '':WAVEFORM:DATA?'') (\<lambda>_.
     seq (scope_read_raw E) (\<lambda>waveform_bytes s.
       let raw_waveform = frombuffer (agilent_payload waveform_bytes);
           voltages = scale_agilent (astype E) (y_reference s) (float32 E (y_increment s))
                        (float32 E (y_origin s)) raw_waveform;
           time_axis = sample_times (arange E) (x_increment s) (x_origin s) (length raw_waveform)
       in seq (savetxt E (iter s + 1) time_axis voltages) (\<lambda>_.
            if (iter s + 1) mod 5 = 0 then plot E (iter s + 1) time_axis voltages
            else pure (Inr ())) s)))"

definition update ::
  "('v::{plus,minus,times}, 't::{plus,times}) env \<Rightarrow> nat \<Rightarrow> ('v, 't) ag_state
   \<Rightarrow> exn option \<times> ('v, 't) ag_state" where
  "update E n s =
     (if n \<le> iter s then
        (case scope_write E '':RUN'' (s\<lparr>timer_active := False\<rparr>) of
           (Inl e, s') \<Rightarrow> (Some e, s')
         | (Inr _, s') \<Rightarrow> (None, scope_close s'))
      else
        (case capture_ag E s of
           (Inr _, s') \<Rightarrow> (None, s'\<lparr>iter := iter s' + 1\<rparr>)
         | (Inl e, s') \<Rightarrow>
             (let s'' = scope_close ((log_error (iter s' + 1) e s')\<lparr>timer_active := False\<rparr>)
              in (None, s''\<lparr>iter := iter s'' + 1\<rparr>))))"

subsection \<open>acquire\_ag.py: the timer\<close>

text \<open>
  \<^verbatim>\<open>timer.timeout.connect(update); timer.start(0)\<close>: the event loop calls \<open>update\<close>
  again and again while the timer runs. An exception that leaves \<open>update\<close> ends the run
  (the timer is stopped by then). Every call either stops the timer or advances \<open>i\<close>
  towards \<open>n\<close>, so the run is finite.
\<close>

function exec_timer ::
  "('v::{plus,minus,times}, 't::{plus,times}) env \<Rightarrow> nat \<Rightarrow> ('v, 't) ag_state
   \<Rightarrow> exn option \<times> ('v, 't) ag_state" where
  "exec_timer E n s =
     (if timer_active s then
        (case update E n s of
           (None, s') \<Rightarrow> exec_timer E n s'
         | (Some e, s') \<Rightarrow> (Some e, s'))
      else (None, s))"
  by pat_completeness auto

lemma capture_ag_iter: "iter (snd (capture_ag E s)) = iter s"
  by (auto simp: capture_ag_def seq_def pure_def scope_write_def scope_read_raw_def plot_def
      savetxt_def Let_def split: prod.splits sum.splits option.splits)

lemma capture_ag_timer: "timer_active (snd (capture_ag E s)) = timer_active s"
  by (auto simp: capture_ag_def seq_def pure_def scope_write_def scope_read_raw_def plot_def
      savetxt_def Let_def split: prod.splits sum.splits option.splits)

lemma update_measure:
  "timer_active s \<Longrightarrow> update E n s = (None, s') \<Longrightarrow> timer_active s' \<Longrightarrow>
   iter s < n \<and> iter s' = iter s + 1"
  using capture_ag_iter [of E s] capture_ag_timer [of E s]
  by (auto simp: update_def scope_write_def scope_close_def log_error_def Let_def
      split: if_splits prod.splits sum.splits option.splits)

termination exec_timer
  apply (relation "measure (\<lambda>(E, n, s). if timer_active s then Suc (n - iter s) else 0)")
   apply simp
  subgoal for E n s x y
    using update_measure [of s E n y]
    by (cases "timer_active y") auto
  done

definition acquire_ag ::
  "('v::{plus,minus,times}, 't::{plus,times}) env \<Rightarrow> nat
   \<Rightarrow> exn \<times> ('v, 't) world + exn option \<times> ('v, 't) ag_state" where
  "acquire_ag E n =
     (case configure_ag E initial of
        (Inl e, w) \<Rightarrow> Inl (e, w)
      | (Inr pre, w) \<Rightarrow> Inr (exec_timer E n (ag_start w pre)))"

subsection \<open>Reading a trace\<close>

text \<open>
  The number of captures attempted is the number of trigger commands sent
  (\<^verbatim>\<open>ACQUIRE:STATE ON\<close> for acquire.py, \<^verbatim>\<open>:DIGITIZE CHAN4\<close> for acquire\_ag.py); the
  number of \<open>close()\<close> calls is the number of \<open>Close\<close> entries.
\<close>

definition triggers :: "('v, 't, 'z) world_scheme \<Rightarrow> nat" where
  "triggers w = count_list (calls w) (Write ''ACQUIRE:STATE ON'')"

definition digitizes :: "('v, 't, 'z) world_scheme \<Rightarrow> nat" where
  "digitizes w = count_list (calls w) (Write '':DIGITIZE CHAN4'')"

definition closes :: "('v, 't, 'z) world_scheme \<Rightarrow> nat" where
  "closes w = count_list (calls w) Close"

definition tek_setup_calls :: "call list" where
  "tek_setup_calls =
     [Ask ''*IDN?'', Write ''DATA:SOURCE CH2'', Write ''DATA:ENCDG RIBinary'',
      Write ''DATA:WIDTH 1'', Write ''HEADER OFF'', Write ''ACQUIRE:STOPAFTER SEQUENCE'',
      Ask ''WFMPRE:NR_PT?'', Ask ''WFMPRE:XINCR?'', Ask ''WFMPRE:XZERO?'',
      Ask ''WFMPRE:YMULT?'', Ask ''WFMPRE:YOFF?'', Ask ''WFMPRE:YZERO?'']"

definition ag_setup_calls :: "call list" where
  "ag_setup_calls =
     [Ask ''*IDN?'', Write '':STOP'', Write '':WAVEFORM:SOURCE CHAN4'',
      Write '':WAVEFORM:FORMAT BYTE'', Write '':WAVEFORM:UNSIGNED OFF'',
      Write '':ACQUIRE:POINTS 1000'', Write '':ACQUIRE:TYPE NORMAL'',
      Ask '':WAVEFORM:PREAMBLE?'']"

definition tek_loop_calls :: "call set" where
  "tek_loop_calls = {Write ''ACQUIRE:STATE ON'', Ask ''*OPC?'', Write ''CURVE?'', Read_raw}"

definition ag_loop_calls :: "call set" where
  "ag_loop_calls =
     {Write '':DIGITIZE CHAN4'', Write '':WAVEFORM:DATA?'', Read_raw, Write '':RUN'', Close}"

definition tek_preamble_queries :: "string list" where
  "tek_preamble_queries =
     [''WFMPRE:NR_PT?'', ''WFMPRE:XINCR?'', ''WFMPRE:XZERO?'',
      ''WFMPRE:YMULT?'', ''WFMPRE:YOFF?'', ''WFMPRE:YZERO?'']"

definition tek_preamble :: "('v, 't) tek_state \<Rightarrow> int \<times> 't \<times> 't \<times> 't \<times> 't \<times> 't" where
  "tek_preamble s = (num_points s, x_increment s, x_origin s, y_multiplier s, y_offset s, y_zero s)"

definition ag_preamble :: "('v, 't) ag_state \<Rightarrow> 't \<times> 't \<times> 't \<times> 't \<times> int" where
  "ag_preamble s = (x_increment s, x_origin s, y_increment s, y_origin s, y_reference s)"

text \<open>
  The invariant of the timer-driven loop while the timer runs, and what holds once it has
  stopped (\<open>r\<close> is the exception that left \<open>update\<close>, if any).
\<close>

definition ag_running :: "nat \<Rightarrow> ('v, 't) ag_state \<Rightarrow> bool" where
  "ag_running n s \<longleftrightarrow>
     timer_active s \<and> errors s = [] \<and> digitizes s = iter s \<and> length (saved s) = iter s
     \<and> iter s \<le> n \<and> closes s = 0"

definition ag_stopped :: "nat \<Rightarrow> exn option \<Rightarrow> ('v, 't) ag_state \<Rightarrow> bool" where
  "ag_stopped n r s \<longleftrightarrow>
     \<not> timer_active s
     \<and> (errors s = [] \<longrightarrow> digitizes s = n \<and> length (saved s) = n)
     \<and> (errors s \<noteq> [] \<longrightarrow>
          (\<exists>e. errors s = [(digitizes s, e)]) \<and> digitizes s \<le> n \<and> r = None
          \<and> digitizes s \<le> length (saved s) + 1 \<and> length (saved s) \<le> digitizes s)
     \<and> closes s = (if r = None then 1 else 0)"

subsection \<open>An instrument for the examples\<close>

text \<open>
  \<open>stub k bad_cmd e reply\<close>: every query is answered \<open>reply\<close>; the \<open>k\<close>-th
  \<open>read_raw\<close> raises \<open>e\<close> (none does when \<open>k = 0\<close>) and the others return two bytes;
  a write of \<open>bad_cmd\<close> raises \<open>e\<close>; the sinks never raise. The number types are the
  reals, and \<open>plain_int\<close>, \<open>plain_float\<close> read a string of ASCII digits, where they
  agree with \<^verbatim>\<open>int()\<close> and \<^verbatim>\<open>float()\<close>.
\<close>

fun digits_value :: "nat \<Rightarrow> string \<Rightarrow> nat option" where
  "digits_value acc [] = Some acc"
| "digits_value acc (c # cs) =
     (if 48 \<le> (of_char c :: nat) \<and> (of_char c :: nat) \<le> 57
      then digits_value (10 * acc + (of_char c - 48)) cs else None)"

definition plain_int :: "string \<Rightarrow> exn + int" where
  "plain_int s =
     (case (if s = [] then None else digits_value 0 s) of
        None \<Rightarrow> Inl (Exn ''invalid literal'')
      | Some n \<Rightarrow> Inr (int n))"

definition plain_float :: "string \<Rightarrow> exn + real" where
  "plain_float s = (case plain_int s of Inl e \<Rightarrow> Inl e | Inr n \<Rightarrow> Inr (of_int n))"

definition stub :: "nat \<Rightarrow> string option \<Rightarrow> exn \<Rightarrow> string \<Rightarrow> (real, real) env" where
  "stub k bad_cmd e reply =
     \<lparr>on_write = (\<lambda>h c. if Some c = bad_cmd then Some e else None),
      on_ask = (\<lambda>h c. Inr reply),
      on_read_raw = (\<lambda>h. if Suc (count_list h Read_raw) = k then Inl e else Inr [0x0A, 0xF6]),
      on_plot = (\<lambda>k ts vs. None),
      on_savetxt = (\<lambda>k ts vs. None),
      py_int = plain_int,
      py_float = plain_float,
      int_of_float = (\<lambda>f. Inr (floor f)),
      float32 = (\<lambda>f. f),
      astype = real_of_int,
      arange = real\<rparr>"

section \<open>Properties of the decoders\<close>






text \<open>
  C3 (the claim as stated fails). A payload shorter than \<^verbatim>\<open>num_points\<close> is not
  rejected: the frame \<^verbatim>\<open>b'#12' + b'\x01\x02' + b'\n'\<close> with \<^verbatim>\<open>num_points = 4\<close>
  decodes to the two codes it holds.
\<close>

theorem short_payload_counterexample:
  "strip_tek_header [0x23, 0x31, 0x32, 1, 2, 0x0A] = Inr [1, 2]
   \<and> int (length [1 :: byte, 2]) < 4
   \<and> decode_visa 4 [0x23, 0x31, 0x32, 1, 2, 0x0A] = Inr [1, 2]"
  by (simp add: decode_visa_def strip_tek_header_def header_len_def int_chr_def
      slice_from_to_last_def reconcile_def slice_to_def frombuffer_def)

text \<open>
  C3 (amended). When the header stripping succeeds with a payload: a payload longer than
  \<^verbatim>\<open>num_points\<close> (\<open>\<ge> 0\<close>) is cut to its first \<^verbatim>\<open>num_points\<close> codes; a payload
  shorter than \<^verbatim>\<open>num_points\<close> is returned whole, with no error; and in every case the
  result is a prefix of the payload's codes, so nothing is ever padded.
\<close>

theorem reconcile_policy:
  assumes "strip_tek_header waveform_bytes = Inr payload"
  shows "(0 \<le> sample_count \<and> sample_count < int (length payload) \<longrightarrow>
            decode_visa sample_count waveform_bytes = Inr (take (nat sample_count) (frombuffer payload))
            \<and> int (length (take (nat sample_count) (frombuffer payload))) = sample_count)
       \<and> (int (length payload) < sample_count \<longrightarrow>
            decode_visa sample_count waveform_bytes = Inr (frombuffer payload))
       \<and> (\<exists>k \<le> length payload.
            decode_visa sample_count waveform_bytes = Inr (take k (frombuffer payload)))"
proof -
  have d: "decode_visa sample_count waveform_bytes = Inr (reconcile sample_count (frombuffer payload))"
    using assms by (simp add: decode_visa_def)
  have n: "length (frombuffer payload) = length payload"
    by (simp add: frombuffer_def)
  have long: "0 \<le> sample_count \<and> sample_count < int (length payload) \<longrightarrow>
      reconcile sample_count (frombuffer payload) = take (nat sample_count) (frombuffer payload)
      \<and> int (length (take (nat sample_count) (frombuffer payload))) = sample_count"
    using n by (auto simp: reconcile_def slice_to_def)
  have short: "int (length payload) < sample_count \<longrightarrow>
      reconcile sample_count (frombuffer payload) = frombuffer payload"
    using n by (auto simp: reconcile_def slice_to_def)
  have "\<exists>k \<le> length payload.
      reconcile sample_count (frombuffer payload) = take k (frombuffer payload)"
  proof (cases "int (length (frombuffer payload)) = sample_count")
    case True
    then have "reconcile sample_count (frombuffer payload) = take (length payload) (frombuffer payload)"
      using n by (simp add: reconcile_def)
    then show ?thesis by blast
  next
    case False
    show ?thesis
    proof (cases "0 \<le> sample_count")
      case True
      with False have "reconcile sample_count (frombuffer payload)
          = take (min (nat sample_count) (length payload)) (frombuffer payload)"
        using n by (simp add: reconcile_def slice_to_def min_def)
      then show ?thesis by (meson min.cobounded2)
    next
      case neg: False
      with False have "reconcile sample_count (frombuffer payload)
          = take (nat (int (length payload) + sample_count)) (frombuffer payload)"
        using n by (simp add: reconcile_def slice_to_def)
      moreover from neg have "nat (int (length payload) + sample_count) \<le> length payload"
        by simp
      ultimately show ?thesis by blast
    qed
  qed
  with d long short show ?thesis by simp
qed

theorem reconcile_policy_witness:
  "strip_tek_header [0x23, 0x31, 0x35, 1, 2, 3, 4, 5, 0x0A] = Inr [1, 2, 3, 4, 5]
   \<and> decode_visa 4 [0x23, 0x31, 0x35, 1, 2, 3, 4, 5, 0x0A] = Inr [1, 2, 3, 4]
   \<and> decode_visa 7 [0x23, 0x31, 0x35, 1, 2, 3, 4, 5, 0x0A] = Inr [1, 2, 3, 4, 5]"
proof -
  have s: "strip_tek_header [0x23, 0x31, 0x35, 1, 2, 3, 4, 5, 0x0A] = Inr [1, 2, 3, 4, 5]"
    by (simp add: strip_tek_header_def header_len_def int_chr_def slice_from_to_last_def)
  from s reconcile_policy [OF s, of 4] reconcile_policy [OF s, of 7] show ?thesis
    by (simp add: frombuffer_def)
qed

lemma find_from_takeWhile:
  "find_from k b xs =
     (if b \<in> set xs then int (k + length (takeWhile (\<lambda>x. x \<noteq> b) xs)) else - 1)"
  by (induction xs arbitrary: k) auto

lemma header_end_index_newline:
  "0x0A \<in> set waveform_bytes \<Longrightarrow>
   header_end_index waveform_bytes = int (length (takeWhile (\<lambda>b. b \<noteq> 0x0A) waveform_bytes)) + 1"
  by (simp add: header_end_index_def find_byte_def find_from_takeWhile)

text \<open>
  C6. A buffer that holds a newline byte is split at the first one: the bytes before it
  and the newline itself are the header, and the payload is everything after it up to
  the end of the buffer. So \<open>header @ [newline] @ payload\<close> with a newline-free header
  decodes to exactly \<open>payload\<close>.
\<close>

theorem agilent_round_trip:
  "(0x0A \<in> set waveform_bytes \<longrightarrow>
      header_end_index waveform_bytes
        = int (length (takeWhile (\<lambda>b. b \<noteq> 0x0A) waveform_bytes)) + 1
      \<and> waveform_bytes
        = takeWhile (\<lambda>b. b \<noteq> 0x0A) waveform_bytes @ 0x0A # agilent_payload waveform_bytes)
   \<and> (0x0A \<notin> set header \<longrightarrow> agilent_payload (header @ 0x0A # payload) = payload)"
proof -
  have first: "waveform_bytes
        = takeWhile (\<lambda>b. b \<noteq> 0x0A) waveform_bytes @ 0x0A # agilent_payload waveform_bytes"
    if nl: "0x0A \<in> set waveform_bytes"
  proof -
    let ?h = "takeWhile (\<lambda>b. b \<noteq> 0x0A) waveform_bytes"
    have "dropWhile (\<lambda>b. b \<noteq> 0x0A) waveform_bytes \<noteq> []"
      using nl by auto
    then obtain x rest where dw: "dropWhile (\<lambda>b. b \<noteq> 0x0A) waveform_bytes = x # rest"
      by (cases "dropWhile (\<lambda>b. b \<noteq> 0x0A) waveform_bytes") auto
    then have x: "x = 0x0A"
      using hd_dropWhile [of "\<lambda>b. b \<noteq> 0x0A" waveform_bytes] by auto
    have split: "waveform_bytes = ?h @ 0x0A # rest"
      using takeWhile_dropWhile_id [of "\<lambda>b. b \<noteq> 0x0A" waveform_bytes] dw x by simp
    have "agilent_payload waveform_bytes = drop (Suc (length ?h)) waveform_bytes"
      using nl by (simp add: agilent_payload_def slice_from_def header_end_index_newline nat_add_distrib)
    also have "\<dots> = drop (Suc (length ?h)) (?h @ 0x0A # rest)"
      using split by simp
    also have "\<dots> = rest" by simp
    finally show ?thesis using split by simp
  qed
  have second: "agilent_payload (header @ 0x0A # payload) = payload"
    if free: "0x0A \<notin> set header"
  proof -
    have "takeWhile (\<lambda>b. b \<noteq> 0x0A) (header @ 0x0A # payload) = header"
      using free by (subst takeWhile_append2) auto
    then have "header_end_index (header @ 0x0A # payload) = int (length header) + 1"
      by (simp add: header_end_index_newline)
    then show ?thesis
      by (simp add: agilent_payload_def slice_from_def nat_add_distrib)
  qed
  from first second show ?thesis
    by (simp add: header_end_index_newline)
qed

text \<open>The header \<^verbatim>\<open>b'#14'\<close>, a newline, and a payload that itself holds a newline.\<close>

theorem agilent_round_trip_witness:
  "(0x0A::byte) \<in> set [0x23, 0x31, 0x34, 0x0A, 1, 0x0A, 3]
   \<and> (0x0A::byte) \<notin> set [0x23, 0x31, 0x34]
   \<and> header_end_index [0x23, 0x31, 0x34, 0x0A, 1, 0x0A, 3] = 4
   \<and> agilent_payload ([0x23, 0x31, 0x34] @ 0x0A # [1, 0x0A, 3]) = [1, 0x0A, 3]"
  using agilent_round_trip [of "[0x23, 0x31, 0x34, 0x0A, 1, 0x0A, 3]" "[0x23, 0x31, 0x34]" "[1, 0x0A, 3]"]
  by simp

text \<open>
  C10. A buffer with no newline byte: \<^verbatim>\<open>find\<close> gives \<open>-1\<close>, the header end index
  is \<open>0\<close>, and the whole buffer is the payload. The decoder has no error result, so
  nothing is raised, and no byte is dropped.
\<close>

theorem agilent_no_newline:
  assumes "0x0A \<notin> set waveform_bytes"
  shows "find_byte 0x0A waveform_bytes = - 1
       \<and> header_end_index waveform_bytes = 0
       \<and> agilent_payload waveform_bytes = waveform_bytes"
  using assms
  by (simp add: agilent_payload_def slice_from_def header_end_index_def find_byte_def
      find_from_takeWhile)

theorem agilent_no_newline_witness:
  "(0x0A::byte) \<notin> set [0x23, 0x31, 0x32, 7, 9]
   \<and> find_byte 0x0A [0x23, 0x31, 0x32, 7, 9] = - 1
   \<and> header_end_index [0x23, 0x31, 0x32, 7, 9] = 0
   \<and> agilent_payload [0x23, 0x31, 0x32, 7, 9] = [0x23, 0x31, 0x32, 7, 9]"
  using agilent_no_newline [of "[0x23, 0x31, 0x32, 7, 9]"]
  by simp

section \<open>Properties of the scaling\<close>



text \<open>
  C5. Agilent scaling: \<open>voltage[i] = (code[i] - zero_code) * scale + offset\<close>
  at every index: the offset \<open>offset\<close> is added after the multiplication. The two
  formulas differ: with zero \<open>0\<close>, scale \<open>2\<close> and offset \<open>1\<close> the code \<open>1\<close> scales to
  \<open>3\<close> in the Agilent formula and to \<open>4\<close> in the Tektronix one.
\<close>

theorem agilent_scaling:
  "length (scale_agilent to_v zero_code scale offset raw_waveform) = length raw_waveform
   \<and> (\<forall>i < length raw_waveform.
        scale_agilent to_v zero_code scale offset raw_waveform ! i
          = (to_v (raw_waveform ! i) - to_v zero_code) * scale + offset)
   \<and> scale_agilent real_of_int 0 2 1 [1] = [3]
   \<and> scale_tek real_of_int 0 1 2 [1] = [4]"
  by (simp add: scale_agilent_def scale_tek_def)

theorem agilent_scaling_witness:
  "(0::nat) < length [1 :: int]
   \<and> scale_agilent real_of_int 0 2 1 [1] ! 0
       = (real_of_int ([1] ! 0) - real_of_int 0) * 2 + 1"
proof -
  have l: "(0::nat) < length [1 :: int]" by simp
  have "\<forall>i < length [1 :: int].
        scale_agilent real_of_int 0 2 1 [1] ! i
          = (real_of_int ([1] ! i) - real_of_int 0) * 2 + 1"
    using agilent_scaling [of real_of_int 0 2 1 "[1]"] by blast
  with l show ?thesis by blast
qed

section \<open>Properties of the capture loops\<close>

subsection \<open>One capture of acquire.py\<close>




lemma capture_closes: "closes (snd (capture E i s)) = closes s"
  by (auto simp: capture_def seq_def scope_write_def scope_ask_def scope_read_raw_def plot_def
      savetxt_def closes_def Let_def split: prod.splits sum.splits option.splits)

lemma log_error_simps [simp]:
  "errors (log_error k e w) = errors w @ [(k, e)]"
  "saved (log_error k e w) = saved w"
  "calls (log_error k e w) = calls w"
  "triggers (log_error k e w) = triggers w"
  "closes (log_error k e w) = closes w"
  by (simp_all add: log_error_def triggers_def closes_def)

subsection \<open>The sequential loop\<close>


subsection \<open>The set-up blocks\<close>

lemma seq_Inr:
  "seq m f s = (Inr y, s'') \<Longrightarrow> \<exists>x s'. m s = (Inr x, s') \<and> f x s' = (Inr y, s'')"
  by (auto simp: seq_def split: prod.splits sum.splits)

lemma scope_write_Inr:
  "scope_write E c w = (Inr u, w') \<Longrightarrow> w' = w\<lparr>calls := calls w @ [Write c]\<rparr>"
  by (auto simp: scope_write_def)

lemma scope_ask_Inr:
  "scope_ask E c w = (Inr r, w') \<Longrightarrow> w' = w\<lparr>calls := calls w @ [Ask c]\<rparr> \<and> on_ask E (calls w) c = Inr r"
  by (auto simp: scope_ask_def)

lemma ask_int_Inr:
  "ask_int E c w = (Inr v, w') \<Longrightarrow>
   w' = w\<lparr>calls := calls w @ [Ask c]\<rparr> \<and> (\<exists>r. on_ask E (calls w) c = Inr r \<and> py_int E r = Inr v)"
  by (auto simp: ask_int_def pure_def scope_ask_def seq_def split: sum.splits)

lemma ask_float_Inr:
  "ask_float E c w = (Inr v, w') \<Longrightarrow>
   w' = w\<lparr>calls := calls w @ [Ask c]\<rparr> \<and> (\<exists>r. on_ask E (calls w) c = Inr r \<and> py_float E r = Inr v)"
  by (auto simp: ask_float_def pure_def scope_ask_def seq_def split: sum.splits)

lemma configure_Inr:
  assumes "configure E w = (Inr pre, w')"
  shows "w' = w\<lparr>calls := calls w @ tek_setup_calls\<rparr>"
  using assms unfolding configure_def
  by (auto dest!: seq_Inr scope_write_Inr scope_ask_Inr ask_int_Inr ask_float_Inr
      simp: pure_def tek_setup_calls_def)

lemma seq_keeps:
  assumes "\<And>s. f (snd (m s)) = f s" and "\<And>x s. f (snd (g x s)) = f s"
  shows "f (snd (seq m g s)) = f s"
proof (cases "m s")
  case (Pair r s')
  with assms(1) [of s] have "f s' = f s" by simp
  with Pair assms(2) show ?thesis
    by (cases r) (simp_all add: seq_def)
qed

lemma pure_keeps: "f (snd (pure r s)) = f s"
  by (simp add: pure_def)






lemma write_closes: "closes (snd (scope_write E c w)) = closes w"
  by (simp add: scope_write_def closes_def)

lemma ask_closes: "closes (snd (scope_ask E c w)) = closes w"
  by (simp add: scope_ask_def closes_def)

lemma ask_int_closes: "closes (snd (ask_int E c w)) = closes w"
  unfolding ask_int_def
  by (rule seq_keeps [where f = closes]) (simp_all add: ask_closes pure_keeps)

lemma ask_float_closes: "closes (snd (ask_float E c w)) = closes w"
  unfolding ask_float_def
  by (rule seq_keeps [where f = closes]) (simp_all add: ask_closes pure_keeps)

lemma configure_closes: "closes (snd (configure E w)) = closes w"
  unfolding configure_def
  by (intro seq_keeps [where f = closes] write_closes ask_closes ask_int_closes
      ask_float_closes pure_keeps)

subsection \<open>The timer-driven loop\<close>

lemma capture_ag_digitizes: "digitizes (snd (capture_ag E s)) = digitizes s + 1"
  by (auto simp: capture_ag_def seq_def pure_def scope_write_def scope_read_raw_def plot_def
      savetxt_def digitizes_def Let_def split: prod.splits sum.splits option.splits)

lemma capture_ag_errors: "errors (snd (capture_ag E s)) = errors s"
  by (auto simp: capture_ag_def seq_def pure_def scope_write_def scope_read_raw_def plot_def
      savetxt_def Let_def split: prod.splits sum.splits option.splits)

lemma capture_ag_closes: "closes (snd (capture_ag E s)) = closes s"
  by (auto simp: capture_ag_def seq_def pure_def scope_write_def scope_read_raw_def plot_def
      savetxt_def closes_def Let_def split: prod.splits sum.splits option.splits)

lemma capture_ag_saved:
  "(case fst (capture_ag E s) of
      Inr _ \<Rightarrow> length (saved (snd (capture_ag E s))) = length (saved s) + 1
    | Inl _ \<Rightarrow> length (saved s) \<le> length (saved (snd (capture_ag E s)))
             \<and> length (saved (snd (capture_ag E s))) \<le> length (saved s) + 1)"
  by (auto simp: capture_ag_def seq_def pure_def scope_write_def scope_read_raw_def plot_def
      savetxt_def Let_def split: prod.splits sum.splits option.splits)

lemma update_running:
  assumes "ag_running n s" and "update E n s = (r, s')"
  shows "(r = None \<and> ag_running n s') \<or> ag_stopped n r s'"
proof (cases "n \<le> iter s")
  case True
  with assms show ?thesis
    by (auto simp: update_def scope_write_def scope_close_def ag_running_def ag_stopped_def
        digitizes_def closes_def split: option.splits)
next
  case False
  obtain r1 s1 where c: "capture_ag E s = (r1, s1)" by (cases "capture_ag E s")
  have f: "digitizes s1 = digitizes s + 1" "errors s1 = errors s" "closes s1 = closes s"
    "iter s1 = iter s" "timer_active s1 = timer_active s"
    using capture_ag_digitizes [where E = E and s = s] capture_ag_errors [where E = E and s = s]
      capture_ag_closes [where E = E and s = s] capture_ag_iter [where E = E and s = s]
      capture_ag_timer [where E = E and s = s] c by simp_all
  show ?thesis
  proof (cases r1)
    case (Inr u)
    then have sv: "length (saved s1) = length (saved s) + 1"
      using capture_ag_saved [where E = E and s = s] c by simp
    from Inr c False assms(2) have "r = None" "s' = s1\<lparr>iter := iter s1 + 1\<rparr>"
      by (auto simp: update_def)
    with f sv assms(1) False show ?thesis
      by (auto simp: ag_running_def digitizes_def closes_def)
  next
    case (Inl e)
    then have sv: "length (saved s) \<le> length (saved s1)" "length (saved s1) \<le> length (saved s) + 1"
      using capture_ag_saved [where E = E and s = s] c by simp_all
    from Inl c False assms(2) have r: "r = None"
      and s': "s' = (scope_close ((log_error (iter s1 + 1) e s1)\<lparr>timer_active := False\<rparr>))
                  \<lparr>iter := iter (scope_close ((log_error (iter s1 + 1) e s1)\<lparr>timer_active := False\<rparr>)) + 1\<rparr>"
      by (auto simp: update_def Let_def)
    have "ag_stopped n r s'"
      using f sv assms(1) False
      unfolding s' r ag_stopped_def ag_running_def
      by (auto simp: scope_close_def log_error_def digitizes_def closes_def)
    then show ?thesis by simp
  qed
qed

lemma exec_timer_stopped:
  "ag_running n s \<or> ag_stopped n None s \<Longrightarrow> exec_timer E n s = (r, s') \<Longrightarrow> ag_stopped n r s'"
proof (induction E n s arbitrary: r s' rule: exec_timer.induct)
  case (1 E n s)
  show ?case
  proof (cases "timer_active s")
    case False
    with "1.prems" show ?thesis
      by (auto simp: ag_running_def)
  next
    case True
    with "1.prems"(1) have run: "ag_running n s" by (auto simp: ag_stopped_def)
    obtain r1 s1 where u: "update E n s = (r1, s1)" by (cases "update E n s")
    from update_running [OF run u] have d: "(r1 = None \<and> ag_running n s1) \<or> ag_stopped n r1 s1" .
    show ?thesis
    proof (cases r1)
      case None
      with True u "1.prems"(2) have e: "exec_timer E n s1 = (r, s')" by simp
      from d None have "ag_running n s1 \<or> ag_stopped n None s1" by auto
      from "1.IH" [OF True u [symmetric] _ this e] None show ?thesis by simp
    next
      case (Some e)
      with True u "1.prems"(2) have "r = r1" "s' = s1" by simp_all
      with d Some show ?thesis by auto
    qed
  qed
qed

subsection \<open>Whole runs\<close>

lemma scope_close_simps [simp]:
  "errors (scope_close w) = errors w"
  "saved (scope_close w) = saved w"
  "calls (scope_close w) = calls w @ [Close]"
  "triggers (scope_close w) = triggers w"
  "digitizes (scope_close w) = digitizes w"
  "closes (scope_close w) = closes w + 1"
  by (simp_all add: scope_close_def triggers_def digitizes_def closes_def)

lemma tek_start_simps [simp]:
  "errors (tek_start w pre) = errors w"
  "saved (tek_start w pre) = saved w"
  "calls (tek_start w pre) = calls w"
  "triggers (tek_start w pre) = triggers w"
  "closes (tek_start w pre) = closes w"
  by (simp_all add: tek_start_def triggers_def closes_def split: prod.splits)

lemma acquire_Inr:
  assumes "acquire E n = Inr s"
  obtains pre where "configure E initial = (Inr pre, initial\<lparr>calls := tek_setup_calls\<rparr>)"
    and "s = scope_close (capture_loop E [0..<n] (tek_start (initial\<lparr>calls := tek_setup_calls\<rparr>) pre))"
proof -
  obtain r w where c: "configure E initial = (r, w)" by (cases "configure E initial")
  with assms obtain pre where r: "r = Inr pre"
    by (cases r) (auto simp: acquire_def)
  from configure_Inr [OF c [unfolded r]] have w: "w = initial\<lparr>calls := tek_setup_calls\<rparr>"
    by (simp add: initial_def)
  from assms c r have "s = scope_close (capture_loop E [0..<n] (tek_start w pre))"
    by (simp add: acquire_def)
  with c r w that show thesis by simp
qed

lemma triggers_setup [simp]: "triggers (initial\<lparr>calls := tek_setup_calls\<rparr>) = 0"
  by (simp add: triggers_def tek_setup_calls_def initial_def)



lemma pure_Inr: "pure r s = (Inr x, s') \<Longrightarrow> s' = s \<and> r = Inr x"
  by (simp add: pure_def)

lemma configure_ag_Inr:
  assumes "configure_ag E w = (Inr pre, w')"
  shows "w' = w\<lparr>calls := calls w @ ag_setup_calls\<rparr>"
  using assms unfolding configure_ag_def Let_def
  by (auto dest!: seq_Inr scope_write_Inr scope_ask_Inr pure_Inr simp: ag_setup_calls_def)

lemma ag_start_running:
  "ag_running n (ag_start (initial\<lparr>calls := ag_setup_calls\<rparr>) pre)"
  by (simp add: ag_running_def ag_start_def initial_def digitizes_def closes_def
      ag_setup_calls_def split: prod.splits)

lemma acquire_ag_Inr:
  assumes "acquire_ag E n = Inr (r, s)"
  obtains pre where "configure_ag E initial = (Inr pre, initial\<lparr>calls := ag_setup_calls\<rparr>)"
    and "exec_timer E n (ag_start (initial\<lparr>calls := ag_setup_calls\<rparr>) pre) = (r, s)"
proof -
  obtain c w where c: "configure_ag E initial = (c, w)" by (cases "configure_ag E initial")
  with assms obtain pre where r: "c = Inr pre"
    by (cases c) (auto simp: acquire_ag_def)
  from configure_ag_Inr [OF c [unfolded r]] have w: "w = initial\<lparr>calls := ag_setup_calls\<rparr>"
    by (simp add: initial_def)
  from assms c r have "exec_timer E n (ag_start w pre) = (r, s)"
    by (simp add: acquire_ag_def)
  with c r w that show thesis by simp
qed

lemma acquire_ag_stopped:
  assumes "acquire_ag E n = Inr (r, s)"
  shows "ag_stopped n r s"
proof -
  from assms obtain pre where
    e: "exec_timer E n (ag_start (initial\<lparr>calls := ag_setup_calls\<rparr>) pre) = (r, s)"
    by (rule acquire_ag_Inr)
  from ag_start_running have "ag_running n (ag_start (initial\<lparr>calls := ag_setup_calls\<rparr>) pre)
      \<or> ag_stopped n None (ag_start (initial\<lparr>calls := ag_setup_calls\<rparr>) pre)" by blast
  from exec_timer_stopped [OF this e] show ?thesis .
qed

subsection \<open>What the loops send and what they leave alone\<close>

lemma capture_calls:
  "\<exists>ex. calls (snd (capture E i s)) = calls s @ ex \<and> set ex \<subseteq> tek_loop_calls"
  by (auto simp: capture_def seq_def scope_write_def scope_ask_def scope_read_raw_def plot_def
      savetxt_def tek_loop_calls_def Let_def split: prod.splits sum.splits option.splits)

lemma capture_preamble: "tek_preamble (snd (capture E i s)) = tek_preamble s"
  by (auto simp: capture_def seq_def scope_write_def scope_ask_def scope_read_raw_def plot_def
      savetxt_def tek_preamble_def Let_def split: prod.splits sum.splits option.splits)

lemma capture_loop_calls:
  "\<exists>ex. calls (capture_loop E is s) = calls s @ ex \<and> set ex \<subseteq> tek_loop_calls"
proof (induction "is" arbitrary: s)
  case Nil
  show ?case by simp
next
  case (Cons i rest)
  obtain r s1 where c: "capture E i s = (r, s1)" by (cases "capture E i s")
  from capture_calls [of E i s] c obtain ex1 where
    e1: "calls s1 = calls s @ ex1" "set ex1 \<subseteq> tek_loop_calls" by auto
  show ?case
  proof (cases r)
    case (Inr u)
    from Cons.IH [of s1] obtain ex2 where
      "calls (capture_loop E rest s1) = calls s1 @ ex2" "set ex2 \<subseteq> tek_loop_calls" by blast
    with e1 c Inr have "calls (capture_loop E (i # rest) s) = calls s @ (ex1 @ ex2)
        \<and> set (ex1 @ ex2) \<subseteq> tek_loop_calls" by simp
    then show ?thesis by blast
  next
    case (Inl e)
    from Cons.IH [of "log_error (i + 1) e s1"] obtain ex2 where
      "calls (capture_loop E rest (log_error (i + 1) e s1)) = calls s1 @ ex2"
      "set ex2 \<subseteq> tek_loop_calls" by auto
    with e1 c Inl have "calls (capture_loop E (i # rest) s) = calls s @ (if is_timeout e then ex1 else ex1 @ ex2)
        \<and> set (if is_timeout e then ex1 else ex1 @ ex2) \<subseteq> tek_loop_calls" by simp
    then show ?thesis by blast
  qed
qed

lemma capture_loop_preamble: "tek_preamble (capture_loop E is s) = tek_preamble s"
proof (induction "is" arbitrary: s)
  case Nil
  show ?case by simp
next
  case (Cons i rest)
  obtain r s1 where c: "capture E i s = (r, s1)" by (cases "capture E i s")
  from capture_preamble [of E i s] c have p: "tek_preamble s1 = tek_preamble s" by simp
  have l: "tek_preamble (log_error k e s1) = tek_preamble s1" for k e
    by (simp add: tek_preamble_def log_error_def)
  from Cons.IH c p l show ?case
    by (cases r) simp_all
qed

lemma capture_ag_calls:
  "\<exists>ex. calls (snd (capture_ag E s)) = calls s @ ex \<and> set ex \<subseteq> ag_loop_calls"
  by (auto simp: capture_ag_def seq_def pure_def scope_write_def scope_read_raw_def plot_def
      savetxt_def ag_loop_calls_def Let_def split: prod.splits sum.splits option.splits)

lemma capture_ag_preamble: "ag_preamble (snd (capture_ag E s)) = ag_preamble s"
  by (auto simp: capture_ag_def seq_def pure_def scope_write_def scope_read_raw_def plot_def
      savetxt_def ag_preamble_def Let_def split: prod.splits sum.splits option.splits)

lemma update_calls:
  "\<exists>ex. calls (snd (update E n s)) = calls s @ ex \<and> set ex \<subseteq> ag_loop_calls"
proof (cases "n \<le> iter s")
  case True
  then show ?thesis
    by (auto simp: update_def scope_write_def scope_close_def ag_loop_calls_def
        split: option.splits)
next
  case False
  obtain r1 s1 where c: "capture_ag E s = (r1, s1)" by (cases "capture_ag E s")
  from capture_ag_calls [where E = E and s = s] c obtain ex1 where
    e1: "calls s1 = calls s @ ex1" "set ex1 \<subseteq> ag_loop_calls" by auto
  show ?thesis
  proof (cases r1)
    case (Inr u)
    with False c e1 have "calls (snd (update E n s)) = calls s @ ex1" by (simp add: update_def)
    with e1 show ?thesis by blast
  next
    case (Inl e)
    with False c e1 have "calls (snd (update E n s)) = calls s @ (ex1 @ [Close])
        \<and> set (ex1 @ [Close]) \<subseteq> ag_loop_calls"
      by (simp add: update_def Let_def scope_close_def log_error_def ag_loop_calls_def)
    then show ?thesis by blast
  qed
qed

lemma update_preamble: "ag_preamble (snd (update E n s)) = ag_preamble s"
proof (cases "n \<le> iter s")
  case True
  then show ?thesis
    by (auto simp: update_def scope_write_def scope_close_def ag_preamble_def
        split: option.splits)
next
  case False
  obtain r1 s1 where c: "capture_ag E s = (r1, s1)" by (cases "capture_ag E s")
  from capture_ag_preamble [where E = E and s = s] c have "ag_preamble s1 = ag_preamble s" by simp
  with False c show ?thesis
    by (cases r1) (simp_all add: update_def Let_def scope_close_def log_error_def ag_preamble_def)
qed

lemma exec_timer_calls:
  "\<exists>ex. calls (snd (exec_timer E n s)) = calls s @ ex \<and> set ex \<subseteq> ag_loop_calls"
proof (induction E n s rule: exec_timer.induct)
  case (1 E n s)
  show ?case
  proof (cases "timer_active s")
    case False
    then show ?thesis by simp
  next
    case True
    obtain r1 s1 where u: "update E n s = (r1, s1)" by (cases "update E n s")
    from update_calls [of E n s] u obtain ex1 where
      e1: "calls s1 = calls s @ ex1" "set ex1 \<subseteq> ag_loop_calls" by auto
    show ?thesis
    proof (cases r1)
      case None
      from "1.IH" [OF True u [symmetric]] None obtain ex2 where
        "calls (snd (exec_timer E n s1)) = calls s1 @ ex2" "set ex2 \<subseteq> ag_loop_calls" by auto
      with e1 True u None have "calls (snd (exec_timer E n s)) = calls s @ (ex1 @ ex2)
          \<and> set (ex1 @ ex2) \<subseteq> ag_loop_calls" by simp
      then show ?thesis by blast
    next
      case (Some e)
      with e1 True u have "calls (snd (exec_timer E n s)) = calls s @ ex1" by simp
      with e1 show ?thesis by blast
    qed
  qed
qed

lemma exec_timer_preamble: "ag_preamble (snd (exec_timer E n s)) = ag_preamble s"
proof (induction E n s rule: exec_timer.induct)
  case (1 E n s)
  show ?case
  proof (cases "timer_active s")
    case False
    then show ?thesis by simp
  next
    case True
    obtain r1 s1 where u: "update E n s = (r1, s1)" by (cases "update E n s")
    from update_preamble [of E n s] u have p: "ag_preamble s1 = ag_preamble s" by simp
    show ?thesis
    proof (cases r1)
      case None
      from "1.IH" [OF True u [symmetric]] None have "ag_preamble (snd (exec_timer E n s1)) = ag_preamble s1"
        by simp
      with p True u None show ?thesis by simp
    next
      case (Some e)
      with p True u show ?thesis by simp
    qed
  qed
qed

lemma capture_loop_closes: "closes (capture_loop E is s) = closes s"
proof (induction "is" arbitrary: s)
  case Nil
  show ?case by simp
next
  case (Cons i rest)
  obtain r s1 where c: "capture E i s = (r, s1)" by (cases "capture E i s")
  from capture_closes [of E i s] c have "closes s1 = closes s" by simp
  with Cons.IH c show ?case
    by (cases r) simp_all
qed



subsection \<open>Runs against the example instrument\<close>








subsection \<open>Closing the session\<close>

text \<open>
  acquire.py closes the session exactly once in every run, whether the set-up failed, the
  loop ran to its end or a timeout broke it. acquire\_ag.py closes it once, unless an
  exception left \<open>update\<close>, in which case it never does.
\<close>

lemma acquire_closes_once:
  "(case acquire E n of Inl (e, w) \<Rightarrow> closes w | Inr s \<Rightarrow> closes s) = 1"
proof -
  obtain r w where c: "configure E initial = (r, w)" by (cases "configure E initial")
  from configure_closes [of E initial] c have w: "closes w = 0"
    by (simp add: closes_def initial_def)
  show ?thesis
  proof (cases r)
    case (Inl e)
    with c w show ?thesis by (simp add: acquire_def)
  next
    case (Inr pre)
    with c w show ?thesis by (simp add: acquire_def capture_loop_closes)
  qed
qed

lemma acquire_ag_closes:
  "acquire_ag E n = Inr (r, s) \<Longrightarrow> closes s = (if r = None then 1 else 0)"
  by (drule acquire_ag_stopped) (simp add: ag_stopped_def)

text \<open>
  C7 (the code misses a case). A run of acquire\_ag.py in which both captures succeed and
  the final \<^verbatim>\<open>scope.write(':RUN')\<close> raises: the timer is stopped, all captures were
  attempted, and \<open>close()\<close> is never called, where the claim says exactly once.
\<close>

theorem run_failure_leaves_session_open:
  "case acquire_ag (stub 0 (Some '':RUN'') (Exn ''USB transport error'') ''0,0,2,1,1,0,0,1,0,0'') 2 of
     Inr (r, s) \<Rightarrow> r = Some (Exn ''USB transport error'') \<and> digitizes s = 2
                \<and> length (saved s) = 2 \<and> errors s = [] \<and> \<not> timer_active s \<and> closes s = 0
   | Inl _ \<Rightarrow> False"
  by code_simp

subsection \<open>The preamble\<close>








lemma count_outside: "set ex \<subseteq> A \<Longrightarrow> x \<notin> A \<Longrightarrow> count_list ex x = 0"
  by (auto intro: count_notin)

lemma tek_queries_once:
  assumes "set loop_calls \<subseteq> tek_loop_calls" and "q \<in> set tek_preamble_queries"
  shows "count_list (tek_setup_calls @ loop_calls @ [Close]) (Ask q) = 1"
proof -
  from assms(2) have "Ask q \<notin> tek_loop_calls"
    by (auto simp: tek_preamble_queries_def tek_loop_calls_def)
  with assms(1) have "count_list loop_calls (Ask q) = 0" by (rule count_outside)
  moreover from assms(2) have "count_list tek_setup_calls (Ask q) = 1"
    by (auto simp: tek_preamble_queries_def tek_setup_calls_def)
  ultimately show ?thesis by simp
qed

lemma ag_query_once:
  assumes "set loop_calls \<subseteq> ag_loop_calls"
  shows "count_list (ag_setup_calls @ loop_calls) (Ask '':WAVEFORM:PREAMBLE?'') = 1"
proof -
  have "Ask '':WAVEFORM:PREAMBLE?'' \<notin> ag_loop_calls"
    by (simp add: ag_loop_calls_def)
  with assms have "count_list loop_calls (Ask '':WAVEFORM:PREAMBLE?'') = 0" by (rule count_outside)
  moreover have "count_list ag_setup_calls (Ask '':WAVEFORM:PREAMBLE?'') = 1"
    by (simp add: ag_setup_calls_def)
  ultimately show ?thesis by simp
qed

text \<open>
  C9. The preamble is queried once, in the set-up block, before any capture: the trace of
  a run of acquire.py is the set-up calls, then the calls of the loop, among which there is
  no preamble query, then \<open>close\<close>; so each of the six queries occurs exactly once. One
  capture, and any number of captures, leave every preamble variable as the set-up block
  assigned it. The same holds for acquire\_ag.py with its one query
  \<^verbatim>\<open>:WAVEFORM:PREAMBLE?\<close>, its callback \<open>update\<close> and its timer loop.
\<close>

theorem preamble_stability:
  "(acquire E n = Inr s \<longrightarrow>
      (\<exists>pre loop_calls.
          fst (configure E initial) = Inr pre \<and> tek_preamble s = pre
          \<and> calls s = tek_setup_calls @ loop_calls @ [Close]
          \<and> set loop_calls \<subseteq> tek_loop_calls
          \<and> (\<forall>q \<in> set tek_preamble_queries. count_list (calls s) (Ask q) = 1)))
   \<and> tek_preamble (snd (capture E i s0)) = tek_preamble s0
   \<and> tek_preamble (capture_loop E is s0) = tek_preamble s0
   \<and> (acquire_ag E n = Inr (r, a) \<longrightarrow>
      (\<exists>pre loop_calls.
          fst (configure_ag E initial) = Inr pre \<and> ag_preamble a = pre
          \<and> calls a = ag_setup_calls @ loop_calls
          \<and> set loop_calls \<subseteq> ag_loop_calls
          \<and> count_list (calls a) (Ask '':WAVEFORM:PREAMBLE?'') = 1))
   \<and> ag_preamble (snd (update E n a0)) = ag_preamble a0
   \<and> ag_preamble (snd (exec_timer E n a0)) = ag_preamble a0"
proof -
  have tek: "\<exists>pre loop_calls.
          fst (configure E initial) = Inr pre \<and> tek_preamble s = pre
          \<and> calls s = tek_setup_calls @ loop_calls @ [Close]
          \<and> set loop_calls \<subseteq> tek_loop_calls
          \<and> (\<forall>q \<in> set tek_preamble_queries. count_list (calls s) (Ask q) = 1)"
    if run: "acquire E n = Inr s"
  proof -
    from run obtain pre where
      c: "configure E initial = (Inr pre, initial\<lparr>calls := tek_setup_calls\<rparr>)" and
      s: "s = scope_close (capture_loop E [0..<n] (tek_start (initial\<lparr>calls := tek_setup_calls\<rparr>) pre))"
      by (rule acquire_Inr)
    define s0 :: "('a, 'b) tek_state" where "s0 = tek_start (initial\<lparr>calls := tek_setup_calls\<rparr>) pre"
    from capture_loop_calls [of E "[0..<n]" s0] obtain loop_calls where
      l: "calls (capture_loop E [0..<n] s0) = calls s0 @ loop_calls" "set loop_calls \<subseteq> tek_loop_calls"
      by blast
    have c0: "calls s0 = tek_setup_calls" by (simp add: s0_def)
    have cs: "calls s = tek_setup_calls @ loop_calls @ [Close]"
      using l(1) c0 by (simp add: s s0_def)
    have "tek_preamble s = tek_preamble (capture_loop E [0..<n] s0)"
      by (simp add: s s0_def tek_preamble_def scope_close_def)
    also have "\<dots> = tek_preamble s0" by (rule capture_loop_preamble)
    also have "\<dots> = pre" by (simp add: s0_def tek_preamble_def tek_start_def split: prod.splits)
    finally have p: "tek_preamble s = pre" .
    have q: "\<forall>q \<in> set tek_preamble_queries. count_list (calls s) (Ask q) = 1"
      unfolding cs using tek_queries_once [OF l(2)] by blast
    from c have f: "fst (configure E initial) = Inr pre" by simp
    from f p cs l(2) q show ?thesis by blast
  qed
  have ag: "\<exists>pre loop_calls.
          fst (configure_ag E initial) = Inr pre \<and> ag_preamble a = pre
          \<and> calls a = ag_setup_calls @ loop_calls
          \<and> set loop_calls \<subseteq> ag_loop_calls
          \<and> count_list (calls a) (Ask '':WAVEFORM:PREAMBLE?'') = 1"
    if run: "acquire_ag E n = Inr (r, a)"
  proof -
    from run obtain pre where
      c: "configure_ag E initial = (Inr pre, initial\<lparr>calls := ag_setup_calls\<rparr>)" and
      e: "exec_timer E n (ag_start (initial\<lparr>calls := ag_setup_calls\<rparr>) pre) = (r, a)"
      by (rule acquire_ag_Inr)
    define a0 :: "('a, 'b) ag_state" where "a0 = ag_start (initial\<lparr>calls := ag_setup_calls\<rparr>) pre"
    from exec_timer_calls [of E n a0] e obtain loop_calls where
      l: "calls a = calls a0 @ loop_calls" "set loop_calls \<subseteq> ag_loop_calls"
      by (auto simp: a0_def)
    have c0: "calls a0 = ag_setup_calls" by (simp add: a0_def ag_start_def split: prod.splits)
    have cs: "calls a = ag_setup_calls @ loop_calls" using l(1) c0 by simp
    from exec_timer_preamble [of E n a0] e have "ag_preamble a = ag_preamble a0"
      by (simp add: a0_def)
    also have "\<dots> = pre" by (simp add: a0_def ag_preamble_def ag_start_def split: prod.splits)
    finally have p: "ag_preamble a = pre" .
    have q: "count_list (calls a) (Ask '':WAVEFORM:PREAMBLE?'') = 1"
      unfolding cs using l(2) by (rule ag_query_once)
    from c have f: "fst (configure_ag E initial) = Inr pre" by simp
    from f p cs l(2) q show ?thesis by blast
  qed
  from tek ag capture_preamble [of E i s0] capture_loop_preamble [of E "is" s0]
    update_preamble [of E n a0] exec_timer_preamble [of E n a0]
  show ?thesis by blast
qed

text \<open>Runs of two captures against the example instrument, for both scripts.\<close>

lemma tek_run_2:
  "case acquire (stub 0 None (Exn []) ''1'') 2 of Inr s \<Rightarrow> errors s = [] | Inl _ \<Rightarrow> False"
  by code_simp

lemma ag_run_2:
  "case acquire_ag (stub 0 None (Exn []) ''0,0,2,1,1,0,0,1,0,0'') 2 of
     Inr (r, a) \<Rightarrow> r = None | Inl _ \<Rightarrow> False"
  by code_simp

theorem preamble_stability_witness:
  "(\<exists>s. acquire (stub 0 None (Exn []) ''1'') 2 = Inr s
        \<and> fst (configure (stub 0 None (Exn []) ''1'') initial) = Inr (tek_preamble s)
        \<and> count_list (calls s) (Ask ''WFMPRE:NR_PT?'') = 1
        \<and> count_list (calls s) (Ask ''WFMPRE:YZERO?'') = 1)
   \<and> (\<exists>r a. acquire_ag (stub 0 None (Exn []) ''0,0,2,1,1,0,0,1,0,0'') 2 = Inr (r, a)
        \<and> fst (configure_ag (stub 0 None (Exn []) ''0,0,2,1,1,0,0,1,0,0'') initial)
            = Inr (ag_preamble a)
        \<and> count_list (calls a) (Ask '':WAVEFORM:PREAMBLE?'') = 1)"
proof -
  let ?E1 = "stub 0 None (Exn []) ''1''"
  let ?E2 = "stub 0 None (Exn []) ''0,0,2,1,1,0,0,1,0,0''"
  from tek_run_2 obtain s where s: "acquire ?E1 2 = Inr s"
    by (cases "acquire ?E1 2") auto
  have m: "''WFMPRE:NR_PT?'' \<in> set tek_preamble_queries" "''WFMPRE:YZERO?'' \<in> set tek_preamble_queries"
    by (simp_all add: tek_preamble_queries_def)
  from preamble_stability [THEN conjunct1, of ?E1 2 s] s m
  have a: "fst (configure ?E1 initial) = Inr (tek_preamble s)
        \<and> count_list (calls s) (Ask ''WFMPRE:NR_PT?'') = 1
        \<and> count_list (calls s) (Ask ''WFMPRE:YZERO?'') = 1"
    by auto
  from ag_run_2 obtain r a where r: "acquire_ag ?E2 2 = Inr (r, a)"
    by (cases "acquire_ag ?E2 2") auto
  from preamble_stability [THEN conjunct2, THEN conjunct2, THEN conjunct2, THEN conjunct1,
      of ?E2 2 r a] r
  have b: "fst (configure_ag ?E2 initial) = Inr (ag_preamble a)
        \<and> count_list (calls a) (Ask '':WAVEFORM:PREAMBLE?'') = 1"
    by auto
  from s a r b show ?thesis by blast
qed

end
